theory Spec2Isabelle
  imports Complex_Main "HOL-Library.Sublist" "HOL-Library.List_Lexorder" "HOL-Library.Char_ord"
begin

section \<open>Library functions used by the engine\<close>

text \<open>
  The engine (\<^verbatim>\<open>pkg/core/core.go\<close>) works on Go strings with \<^verbatim>\<open>strings.Split\<close>,
  \<^verbatim>\<open>strings.Replace\<close>, \<^verbatim>\<open>strconv.Atoi\<close> and \<^verbatim>\<open>fmt.Sprintf("%d")\<close>, written out here, and
  with \<^verbatim>\<open>strings.ToLower\<close>, \<^verbatim>\<open>strings.ToUpper\<close> and the package \<^verbatim>\<open>regexp\<close>, which the engine
  below takes as parameters. A Go string is a byte sequence, modelled as a \<^typ>\<open>string\<close>.
  The backslash cannot be typed inside a string literal, so it has a name.
\<close>

abbreviation bsl :: char where
  "bsl \<equiv> CHR 0x5C"

text \<open>
  \<^verbatim>\<open>strings.Index\<close> together with the cut that \<^verbatim>\<open>genSplit\<close> and \<^verbatim>\<open>Replace\<close> perform at the
  leftmost occurrence of \<open>sep\<close>: the text before it and the text after it.
\<close>

fun cut_at :: "string \<Rightarrow> string \<Rightarrow> (string \<times> string) option" where
  "cut_at sep [] = (if sep = [] then Some ([], []) else None)"
| "cut_at sep (c # cs) =
     (if prefix sep (c # cs) then Some ([], drop (length sep) (c # cs))
      else (case cut_at sep cs of None \<Rightarrow> None | Some (b, a) \<Rightarrow> Some (c # b, a)))"

lemma cut_shorter: "cut_at sep s = Some (b, a) \<Longrightarrow> sep \<noteq> [] \<Longrightarrow> length a < length s"
proof (induction s arbitrary: b)
  case Nil
  then show ?case by simp
next
  case (Cons c cs)
  show ?case
  proof (cases "prefix sep (c # cs)")
    case True
    with Cons.prems show ?thesis by (cases sep) auto
  next
    case False
    with Cons.prems obtain b' where "cut_at sep cs = Some (b', a)"
      by (auto split: option.splits)
    from Cons.IH [OF this Cons.prems(2)] show ?thesis by simp
  qed
qed

text \<open>
  \<^verbatim>\<open>strings.Split(s, sep)\<close>: the pieces of \<open>s\<close> between the non-overlapping occurrences
  of \<open>sep\<close>, found from the left. With an empty separator Go explodes the string into its
  UTF-8 sequences (here: bytes); the engine only ever passes the separators
  backslash-semicolon and colon.
\<close>

function Split :: "string \<Rightarrow> string \<Rightarrow> string list" where
  "Split s sep =
     (if sep = [] then map (\<lambda>c. [c]) s
      else (case cut_at sep s of None \<Rightarrow> [s] | Some (b, a) \<Rightarrow> b # Split a sep))"
  by pat_completeness auto
termination
  by (relation "measure (\<lambda>(s, sep). length s)") (auto dest: cut_shorter)

text \<open>
  \<^verbatim>\<open>strings.Replace(s, old, new, -1)\<close>: every non-overlapping occurrence of \<open>old\<close> replaced,
  from the left. With an empty \<open>old\<close> Go inserts \<open>new\<close> before every UTF-8 sequence (here:
  byte) and at the end; the engine never passes an empty \<open>old\<close>.
\<close>

function Replace :: "string \<Rightarrow> string \<Rightarrow> string \<Rightarrow> string" where
  "Replace s old new =
     (if old = [] then new @ concat (map (\<lambda>c. c # new) s)
      else (case cut_at old s of None \<Rightarrow> s | Some (b, a) \<Rightarrow> b @ new @ Replace a old new))"
  by pat_completeness auto
termination
  by (relation "measure (\<lambda>(s, old, new). length s)") (auto dest: cut_shorter)

declare Split.simps [simp del] Replace.simps [simp del]





text \<open>
  \<^verbatim>\<open>strconv.Atoi\<close> for a 64-bit \<^verbatim>\<open>int\<close>. The pair is the returned value and whether the
  returned error is nil. \<^verbatim>\<open>ParseUint\<close> reads the digits from the left: a byte that is no
  decimal digit is a syntax error, and a value that leaves 64 bits is a range error, whichever
  comes first. \<^verbatim>\<open>ParseInt\<close> strips the sign, returns 0 on a syntax error and the nearest
  bound of \<^verbatim>\<open>int\<close> when the value is out of range, both with an error. (The fast path of
  \<^verbatim>\<open>Atoi\<close> for strings shorter than 19 bytes returns the same.)
\<close>

definition digit_of :: "char \<Rightarrow> int option" where
  "digit_of c =
     (let n = (of_char c :: int) in if 48 \<le> n \<and> n \<le> 57 then Some (n - 48) else None)"

datatype uint_result = UintValue int | ErrSyntax | ErrRange

fun ParseUint :: "int \<Rightarrow> string \<Rightarrow> uint_result" where
  "ParseUint n [] = UintValue n"
| "ParseUint n (c # cs) =
     (case digit_of c of
        None \<Rightarrow> ErrSyntax
      | Some d \<Rightarrow>
          if n \<ge> (2 ^ 64 - 1) div 10 + 1 then ErrRange
          else if n * 10 + d > 2 ^ 64 - 1 then ErrRange
          else ParseUint (n * 10 + d) cs)"

definition Atoi :: "string \<Rightarrow> int \<times> bool" where
  "Atoi s =
     (let neg = (s \<noteq> [] \<and> hd s = CHR ''-'');
          body = (if s \<noteq> [] \<and> (hd s = CHR ''-'' \<or> hd s = CHR ''+'') then tl s else s)
      in if body = [] then (0, False)
         else (case ParseUint 0 body of
                 ErrSyntax \<Rightarrow> (0, False)
               | ErrRange \<Rightarrow> (if neg then (- (2 ^ 63), False) else (2 ^ 63 - 1, False))
               | UintValue n \<Rightarrow>
                   if \<not> neg \<and> n \<ge> 2 ^ 63 then (2 ^ 63 - 1, False)
                   else if neg \<and> n > 2 ^ 63 then (- (2 ^ 63), False)
                   else (if neg then - n else n, True)))"

text \<open>\<^verbatim>\<open>fmt.Sprintf("%d", i)\<close> for a non-negative index: its decimal digits.\<close>

function itoa :: "nat \<Rightarrow> string" where
  "itoa n =
     (if n < 10 then [''0123456789'' ! n] else itoa (n div 10) @ [''0123456789'' ! (n mod 10)])"
  by pat_completeness auto
termination
  by (relation "measure id") auto

declare itoa.simps [simp del]

section \<open>Data model\<close>

text \<open>
  The catalog's pattern fields are \<^verbatim>\<open>interface{}\<close> values produced by the JSON decoder:
  nil, bool, float64, string, \<^verbatim>\<open>[]interface{}\<close> or \<^verbatim>\<open>map[string]interface{}\<close>. A Go map is
  an association list with distinct keys; the order of the list stands for the order in
  which \<^verbatim>\<open>range\<close> happens to visit the map, which Go leaves unspecified.
\<close>

datatype json =
    JNull
  | JBool bool
  | JNumber real
  | JString string
  | JArray "json list"
  | JObject "(string \<times> json) list"

text \<open>
  A compiled \<^verbatim>\<open>*regexp.Regexp\<close> is taken by what the engine asks of it: for a subject
  string, the list of matches, each the list of its groups (group 0 first), as
  \<^verbatim>\<open>FindAllStringSubmatch(s, -1)\<close> returns it (nil, here the empty list, when nothing
  matches). \<^verbatim>\<open>MatchString\<close> is true exactly when there is a match.
\<close>

datatype regexp = Regexp (FindAllStringSubmatch: "string \<Rightarrow> string list list")

definition MatchString :: "regexp \<Rightarrow> string \<Rightarrow> bool" where
  "MatchString r s = (FindAllStringSubmatch r s \<noteq> [])"

record pattern =
  str :: string
  regex :: "regexp option"
  version :: string
  confidence :: int

datatype panic = TypeAssertion | NilDereference

section \<open>Pattern compiler: \<^verbatim>\<open>parsePatterns\<close>\<close>

text \<open>\<^verbatim>\<open>parsed[k] = append(parsed[k], x)\<close> on the association list.\<close>

fun append_at :: "string \<Rightarrow> 'a \<Rightarrow> (string \<times> 'a list) list \<Rightarrow> (string \<times> 'a list) list" where
  "append_at k x [] = [(k, [x])]"
| "append_at k x ((k', xs) # m) =
     (if k = k' then (k', xs @ [x]) # m else (k', xs) # append_at k x m)"

text \<open>\<^verbatim>\<open>parsed[k] = slice\<close>: assignment to a key.\<close>

fun assign_at :: "string \<Rightarrow> 'a \<Rightarrow> (string \<times> 'a) list \<Rightarrow> (string \<times> 'a) list" where
  "assign_at k x [] = [(k, x)]"
| "assign_at k x ((k', y) # m) =
     (if k = k' then (k', x) # m else (k', y) # assign_at k x m)"

text \<open>The type assertion \<^verbatim>\<open>v.(string)\<close> without the comma-ok form panics on any other type.\<close>

fun assert_string :: "json \<Rightarrow> panic + string" where
  "assert_string (JString s) = Inr s"
| "assert_string _ = Inl TypeAssertion"

text \<open>
  \<^verbatim>\<open>for _, v1 := range content { parsed[k] = append(parsed[k], v1.(string)) }\<close>
\<close>

fun append_strings ::
  "string \<Rightarrow> json list \<Rightarrow> (string \<times> string list) list \<Rightarrow> panic + (string \<times> string list) list" where
  "append_strings k [] parsed = Inr parsed"
| "append_strings k (v1 # vs) parsed =
     (case assert_string v1 of
        Inl e \<Rightarrow> Inl e
      | Inr s \<Rightarrow> append_strings k vs (append_at k s parsed))"

text \<open>\<^verbatim>\<open>for _, v := range ptrn { slice = append(slice, v.(string)) }\<close>\<close>

fun collect_strings :: "json list \<Rightarrow> string list \<Rightarrow> panic + string list" where
  "collect_strings [] slice = Inr slice"
| "collect_strings (v # vs) slice =
     (case assert_string v of Inl e \<Rightarrow> Inl e | Inr s \<Rightarrow> collect_strings vs (slice @ [s]))"

text \<open>The loop over the entries of a \<^verbatim>\<open>map[string]interface{}\<close>.\<close>

fun parse_entries ::
  "(string \<times> json) list \<Rightarrow> (string \<times> string list) list \<Rightarrow> panic + (string \<times> string list) list" where
  "parse_entries [] parsed = Inr parsed"
| "parse_entries ((k, v) # kvs) parsed =
     (case v of
        JString s \<Rightarrow> parse_entries kvs (append_at k s parsed)
      | JArray content \<Rightarrow>
          (case append_strings k content parsed of
             Inl e \<Rightarrow> Inl e
           | Inr parsed' \<Rightarrow> parse_entries kvs parsed')
      | _ \<Rightarrow> parse_entries kvs parsed)"

text \<open>The first \<^verbatim>\<open>switch\<close> of \<^verbatim>\<open>parsePatterns\<close>: the raw pattern strings by sub-key.\<close>

definition parse_shape :: "json \<Rightarrow> panic + (string \<times> string list) list" where
  "parse_shape patterns =
     (case patterns of
        JString ptrn \<Rightarrow> Inr (append_at ''main'' ptrn [])
      | JObject ptrn \<Rightarrow> parse_entries ptrn []
      | JArray ptrn \<Rightarrow>
          (case collect_strings ptrn [] of
             Inl e \<Rightarrow> Inl e
           | Inr slice \<Rightarrow> Inr (assign_at ''main'' slice []))
      | _ \<Rightarrow> Inr [])"

text \<open>
  The body of the loop over the fields of one pattern string: \<open>i\<close> is the index of
  \<open>item\<close> in the split. \<open>compile\<close> is \<^verbatim>\<open>regexp.Compile\<close>, \<^const>\<open>None\<close> when it returns an error.
\<close>

definition pattern_item ::
  "(string \<Rightarrow> regexp option) \<Rightarrow> pattern \<Rightarrow> nat \<Rightarrow> string \<Rightarrow> pattern" where
  "pattern_item compile appPattern i item =
     (if item = [] then appPattern
      else if i > 0 then
        (let additional = Split item '':'' in
         if length additional > 1 then
           (if additional ! 0 = ''version'' then appPattern\<lparr>version := additional ! 1\<rparr>
            else if additional ! 0 = ''confidence''
              then appPattern\<lparr>confidence := fst (Atoi (additional ! 1))\<rparr>
            else appPattern)
         else appPattern)
      else
        (let first = Replace item [bsl, CHR ''/''] ''/'';
             second = Replace first [bsl, bsl] [bsl];
             reg = compile (''(?i)'' @ Replace second ''/'' [bsl, CHR ''/''])
         in (case reg of
               Some r \<Rightarrow> appPattern\<lparr>str := item, regex := Some r\<rparr>
             | None \<Rightarrow> appPattern\<lparr>str := item\<rparr>)))"

fun pattern_items ::
  "(string \<Rightarrow> regexp option) \<Rightarrow> pattern \<Rightarrow> nat \<Rightarrow> string list \<Rightarrow> pattern" where
  "pattern_items compile appPattern i [] = appPattern"
| "pattern_items compile appPattern i (item # slice) =
     pattern_items compile (pattern_item compile appPattern i item) (Suc i) slice"

text \<open>One pattern string compiled: the body of \<^verbatim>\<open>for _, str := range v\<close>.\<close>

definition compile_pattern :: "(string \<Rightarrow> regexp option) \<Rightarrow> string \<Rightarrow> pattern" where
  "compile_pattern compile s =
     pattern_items compile \<lparr>str = [], regex = None, version = [], confidence = 100\<rparr> 0
       (Split s [bsl, CHR '';''])"

text \<open>\<^verbatim>\<open>for _, str := range v { ...; result[k] = append(result[k], appPattern) }\<close>\<close>

fun compile_group ::
  "(string \<Rightarrow> regexp option) \<Rightarrow> string \<Rightarrow> string list \<Rightarrow> (string \<times> pattern list) list
     \<Rightarrow> (string \<times> pattern list) list" where
  "compile_group compile k [] result = result"
| "compile_group compile k (s # v) result =
     compile_group compile k v (append_at k (compile_pattern compile s) result)"

fun compile_groups ::
  "(string \<Rightarrow> regexp option) \<Rightarrow> (string \<times> string list) list \<Rightarrow> (string \<times> pattern list) list
     \<Rightarrow> (string \<times> pattern list) list" where
  "compile_groups compile [] result = result"
| "compile_groups compile ((k, v) # parsed) result =
     compile_groups compile parsed (compile_group compile k v result)"

definition parsePatterns ::
  "(string \<Rightarrow> regexp option) \<Rightarrow> json \<Rightarrow> panic + (string \<times> pattern list) list" where
  "parsePatterns compile patterns =
     (case parse_shape patterns of
        Inl e \<Rightarrow> Inl e
      | Inr parsed \<Rightarrow> Inr (compile_groups compile parsed []))"

section \<open>Version resolution: \<^verbatim>\<open>detectVersion\<close>\<close>

text \<open>
  \<^verbatim>\<open>detectVersion\<close> builds two regular expressions for every group index \<open>i\<close> and applies
  them to the version template. Both have a fixed shape, so what \<^verbatim>\<open>regexp\<close> computes for
  them is written out on strings.

  The first is \<^verbatim>\<open>\\i\?([^:]+):(.*)$\<close>. It matches at a position when the text there is a
  backslash, the digits of \<open>i\<close>, a question mark, a non-empty run without colon, a colon, and
  then text without newline up to the end of the string (\<^verbatim>\<open>$\<close> without the multi-line flag
  is the end of the text; a negated class matches a newline, the dot does not).
\<close>

definition ternary_here :: "nat \<Rightarrow> string \<Rightarrow> bool" where
  "ternary_here i s =
     (let tok = bsl # itoa i @ ''?'';
          r = drop (length tok) s;
          x = takeWhile (\<lambda>c. c \<noteq> CHR '':'') r;
          y = dropWhile (\<lambda>c. c \<noteq> CHR '':'') r
      in prefix tok s \<and> x \<noteq> [] \<and> y \<noteq> [] \<and> CHR 0x0A \<notin> set (tl y))"

text \<open>
  \<^verbatim>\<open>reg.FindAllString(version, -1)\<close> for that expression: the successive non-overlapping
  matches, each as the matched text. A match always runs to the end of the string, so the
  search for a next one starts there and finds nothing.
\<close>

fun ternary_FindAllString :: "nat \<Rightarrow> string \<Rightarrow> string list" where
  "ternary_FindAllString i [] = []"
| "ternary_FindAllString i (c # cs) =
     (if ternary_here i (c # cs) then [c # cs] else ternary_FindAllString i cs)"

text \<open>
  The second is \<^verbatim>\<open>\\i\<close>, the literal backslash and digits of \<open>i\<close>, used with
  \<^verbatim>\<open>ReplaceAllString(version, match)\<close>. The replacement is a template in which \<^verbatim>\<open>$\<close> is
  expanded: \<^verbatim>\<open>$$\<close> is a dollar sign, \<^verbatim>\<open>$name\<close> and \<^verbatim>\<open>${name}\<close> stand for a group, and a
  dollar sign followed by no name stays. The expression has no group but the whole match
  (name \<^verbatim>\<open>0\<close>); every other name expands to the empty string. A name is a run of letters,
  digits and underscores (the ASCII ones here; Go also accepts the letters and digits
  beyond ASCII).
\<close>

definition is_word_char :: "char \<Rightarrow> bool" where
  "is_word_char c =
     (c \<in> set ''abcdefghijklmnopqrstuvwxyzABCDEFGHIJKLMNOPQRSTUVWXYZ0123456789_'')"

definition extract_name :: "string \<Rightarrow> (string \<times> string) option" where
  "extract_name s =
     (if s = [] then None
      else
        (let brace = (hd s = CHR ''{'');
             s1 = (if brace then tl s else s);
             name = takeWhile is_word_char s1;
             rest = dropWhile is_word_char s1
         in if name = [] then None
            else if brace then
              (if rest = [] \<or> hd rest \<noteq> CHR ''}'' then None else Some (name, tl rest))
            else Some (name, rest)))"

lemma extract_shorter: "extract_name s = Some (name, rest) \<Longrightarrow> length rest \<le> length s"
proof -
  have d: "length (dropWhile is_word_char t) \<le> length t" for t
    by (rule length_dropWhile_le)
  assume "extract_name s = Some (name, rest)"
  then show ?thesis
    using d [of s] d [of "tl s"]
    by (auto simp: extract_name_def Let_def split: if_splits)
qed

function expand :: "string \<Rightarrow> string \<Rightarrow> string" where
  "expand template m =
     (case cut_at ''$'' template of
        None \<Rightarrow> template
      | Some (before, after) \<Rightarrow>
          if after \<noteq> [] \<and> hd after = CHR ''$'' then before @ ''$'' @ expand (tl after) m
          else (case extract_name after of
                  None \<Rightarrow> before @ ''$'' @ expand after m
                | Some (name, rest) \<Rightarrow>
                    before @ (if name = ''0'' then m else []) @ expand rest m))"
  by pat_completeness auto
termination
proof (relation "measure (\<lambda>(template, m). length template)", goal_cases)
  case 1
  show ?case by simp
next
  case (2 template m ba before after)
  then have "length after < length template" by (auto dest: cut_shorter)
  then show ?case by (cases after) auto
next
  case (3 template m ba before after)
  then show ?case by (auto dest: cut_shorter)
next
  case (4 template m ba before after nr name rest)
  then have "length after < length template" and "length rest \<le> length after"
    by (auto dest: cut_shorter extract_shorter)
  then show ?case by simp
qed

declare expand.simps [simp del]

text \<open>\<^verbatim>\<open>reg2.ReplaceAllString(version, match)\<close> for the literal expression \<open>lit\<close>.\<close>

definition ReplaceAllString_literal :: "string \<Rightarrow> string \<Rightarrow> string \<Rightarrow> string" where
  "ReplaceAllString_literal lit src repl = Replace src lit (expand repl lit)"

text \<open>The body of \<^verbatim>\<open>for i, match := range slice\<close>.\<close>

definition version_step :: "string \<Rightarrow> nat \<Rightarrow> string \<Rightarrow> string" where
  "version_step version0 i match =
     (let ternary = ternary_FindAllString i version0;
          version1 =
            (if ternary \<noteq> [] \<and> length ternary = 3
             then Replace version0 (ternary ! 0) (ternary ! 1)
             else version0)
      in ReplaceAllString_literal (bsl # itoa i) version1 match)"

fun version_groups :: "string \<Rightarrow> nat \<Rightarrow> string list \<Rightarrow> string" where
  "version_groups version0 i [] = version0"
| "version_groups version0 i (match # slice) =
     version_groups (version_step version0 i match) (Suc i) slice"

text \<open>\<^verbatim>\<open>for _, slice := range slices\<close>, the template threaded through all matches.\<close>

fun version_slices :: "string \<Rightarrow> string list list \<Rightarrow> string" where
  "version_slices version0 [] = version0"
| "version_slices version0 (slice # slices) =
     version_slices (version_groups version0 0 slice) slices"

text \<open>
  The map \<^verbatim>\<open>versions\<close> receives the one resolved template when it is not empty, and the
  result is the greatest key (byte-wise lexicographic order) above the empty string.
\<close>

definition detectVersion :: "pattern \<Rightarrow> string \<Rightarrow> string" where
  "detectVersion pattrn val =
     (case regex pattrn of
        None \<Rightarrow> []
      | Some r \<Rightarrow>
          (let slices = FindAllStringSubmatch r val in
           if slices \<noteq> [] then
             (let version1 = version_slices (version pattrn) slices;
                  versions = (if version1 \<noteq> [] then [version1] else [])
              in fold (\<lambda>ver res. if ver > res then ver else res) versions [])
           else []))"

section \<open>Detection set: \<^verbatim>\<open>addApp\<close>\<close>

record application =
  Name :: string
  Version :: string
  Categories :: "string list"
  Cats :: "int list"
  Cookies :: json
  Dom :: "(string \<times> (string \<times> json) list) list"
  Js :: json
  Headers :: json
  HTML :: json
  Excludes :: json
  Implies :: json
  Meta :: json
  Scripts :: json
  DNS :: json
  URL :: string
  Website :: string

record resultApp =
  resName :: string
  resVersion :: string
  resCategories :: "string list"
  Confidence :: int
  excludes :: json
  implies :: json

text \<open>
  The detection set \<^verbatim>\<open>detected.Apps\<close> is a Go map from name to \<^verbatim>\<open>*resultApp\<close>. Every update
  happens with the mutex held, so the model is sequential.
\<close>

type_synonym detected = "(string \<times> resultApp) list"

definition addApp :: "application \<Rightarrow> detected \<Rightarrow> string \<Rightarrow> int \<Rightarrow> detected" where
  "addApp app apps version0 confidence0 =
     (case map_of apps (Name app) of
        None \<Rightarrow>
          assign_at (Name app)
            \<lparr>resName = Name app, resVersion = version0, resCategories = Categories app,
             Confidence = confidence0, excludes = Excludes app, implies = Implies app\<rparr> apps
      | Some e \<Rightarrow>
          (let e1 = (if resVersion e = [] then e\<lparr>resVersion := version0\<rparr> else e);
               e2 = (if confidence0 > Confidence e1 then e1\<lparr>Confidence := confidence0\<rparr> else e1)
           in assign_at (Name app) e2 apps))"

section \<open>Matchers\<close>

text \<open>
  \<^verbatim>\<open>pattrn.regex != nil && pattrn.regex.MatchString(v)\<close>, and the two statements
  \<^verbatim>\<open>version := detectVersion(pattrn, &v); addApp(app, detectedApplications, version,
  pattrn.confidence)\<close> that every matcher runs on a hit.
\<close>

definition regex_matches :: "pattern \<Rightarrow> string \<Rightarrow> bool" where
  "regex_matches pattrn v = (case regex pattrn of None \<Rightarrow> False | Some r \<Rightarrow> MatchString r v)"

definition record_hit :: "application \<Rightarrow> pattern \<Rightarrow> string \<Rightarrow> detected \<Rightarrow> detected" where
  "record_hit app pattrn v det = addApp app det (detectVersion pattrn v) (confidence pattrn)"

text \<open>A loop whose body can panic stops at the first panic.\<close>

fun fold_err :: "('a \<Rightarrow> 's \<Rightarrow> panic + 's) \<Rightarrow> 'a list \<Rightarrow> 's \<Rightarrow> panic + 's" where
  "fold_err f [] s = Inr s"
| "fold_err f (x # xs) s = (case f x s of Inl e \<Rightarrow> Inl e | Inr s' \<Rightarrow> fold_err f xs s')"

text \<open>
  Every matcher parses its pattern field and runs two nested loops, over the groups of
  patterns and over the patterns of a group. What a matcher does for one pattern has a
  name here, \<open>analyzeURL_pattern\<close> and so on: it is the body of the loop
  \<^verbatim>\<open>for _, pattrn := range v\<close>.

  \<^verbatim>\<open>strings.ToLower\<close> and \<^verbatim>\<open>strings.ToUpper\<close> are parameters of the matchers that call them,
  like the regular-expression compiler.
\<close>

definition analyzeURL_pattern ::
  "application \<Rightarrow> string \<Rightarrow> pattern \<Rightarrow> detected \<Rightarrow> detected" where
  "analyzeURL_pattern app url pattrn det =
     (if regex_matches pattrn url then record_hit app pattrn url det else det)"

definition analyzeURL ::
  "(string \<Rightarrow> regexp option) \<Rightarrow> application \<Rightarrow> string \<Rightarrow> detected \<Rightarrow> panic + detected" where
  "analyzeURL compile app url det =
     (case parsePatterns compile (JString (URL app)) of
        Inl e \<Rightarrow> Inl e
      | Inr patterns \<Rightarrow> Inr (fold (\<lambda>(k, v). fold (analyzeURL_pattern app url) v) patterns det))"

definition analyzeScripts_pattern ::
  "application \<Rightarrow> string list \<Rightarrow> pattern \<Rightarrow> detected \<Rightarrow> detected" where
  "analyzeScripts_pattern app scripts pattrn det =
     (if regex pattrn \<noteq> None then
        fold (\<lambda>script det.
          if regex_matches pattrn script then record_hit app pattrn script det else det)
          scripts det
      else det)"

definition analyzeScripts ::
  "(string \<Rightarrow> regexp option) \<Rightarrow> application \<Rightarrow> string list \<Rightarrow> detected \<Rightarrow> panic + detected" where
  "analyzeScripts compile app scripts det =
     (case parsePatterns compile (Scripts app) of
        Inl e \<Rightarrow> Inl e
      | Inr patterns \<Rightarrow>
          Inr (fold (\<lambda>(k, v). fold (analyzeScripts_pattern app scripts) v) patterns det))"

definition analyzeHeaders_pattern ::
  "application \<Rightarrow> (string \<times> string list) list \<Rightarrow> string \<Rightarrow> pattern \<Rightarrow> detected \<Rightarrow> detected" where
  "analyzeHeaders_pattern app headers headerNameLowerCase pattrn det =
     (case map_of headers headerNameLowerCase of
        Some headersSlice \<Rightarrow>
          fold (\<lambda>header det.
            if str pattrn = [] \<or> regex_matches pattrn header
            then record_hit app pattrn header det else det) headersSlice det
      | None \<Rightarrow> det)"

definition analyzeHeaders ::
  "(string \<Rightarrow> regexp option) \<Rightarrow> (string \<Rightarrow> string) \<Rightarrow> application
     \<Rightarrow> (string \<times> string list) list \<Rightarrow> detected \<Rightarrow> panic + detected" where
  "analyzeHeaders compile ToLower app headers det =
     (case parsePatterns compile (Headers app) of
        Inl e \<Rightarrow> Inl e
      | Inr patterns \<Rightarrow>
          Inr (fold (\<lambda>(headerName, v).
                  fold (analyzeHeaders_pattern app headers (ToLower headerName)) v)
                patterns det))"

definition analyzeCookies_pattern ::
  "application \<Rightarrow> (string \<times> string) list \<Rightarrow> string \<Rightarrow> pattern \<Rightarrow> detected \<Rightarrow> detected" where
  "analyzeCookies_pattern app cookies cookieNameLowerCase pattrn det =
     (case map_of cookies cookieNameLowerCase of
        Some cookie \<Rightarrow>
          if str pattrn = [] \<or> regex_matches pattrn cookie
          then record_hit app pattrn cookie det else det
      | None \<Rightarrow> det)"

definition analyzeCookies ::
  "(string \<Rightarrow> regexp option) \<Rightarrow> (string \<Rightarrow> string) \<Rightarrow> application \<Rightarrow> (string \<times> string) list
     \<Rightarrow> detected \<Rightarrow> panic + detected" where
  "analyzeCookies compile ToLower app cookies det =
     (case parsePatterns compile (Cookies app) of
        Inl e \<Rightarrow> Inl e
      | Inr patterns \<Rightarrow>
          Inr (fold (\<lambda>(cookieName, v).
                  fold (analyzeCookies_pattern app cookies (ToLower cookieName)) v)
                patterns det))"

definition analyzeHTML_pattern ::
  "application \<Rightarrow> string \<Rightarrow> pattern \<Rightarrow> detected \<Rightarrow> detected" where
  "analyzeHTML_pattern app html pattrn det =
     (if regex_matches pattrn html then record_hit app pattrn html det else det)"

definition analyzeHTML ::
  "(string \<Rightarrow> regexp option) \<Rightarrow> application \<Rightarrow> string \<Rightarrow> detected \<Rightarrow> panic + detected" where
  "analyzeHTML compile app html det =
     (case parsePatterns compile (HTML app) of
        Inl e \<Rightarrow> Inl e
      | Inr patterns \<Rightarrow>
          Inr (fold (\<lambda>(k, v). fold (analyzeHTML_pattern app html) v) patterns det))"

definition analyzeMeta_pattern ::
  "application \<Rightarrow> (string \<times> string list) list \<Rightarrow> string \<Rightarrow> pattern \<Rightarrow> detected \<Rightarrow> detected" where
  "analyzeMeta_pattern app metas metaNameLowerCase pattrn det =
     (case map_of metas metaNameLowerCase of
        Some metaSlice \<Rightarrow>
          fold (\<lambda>meta det.
            if str pattrn = [] \<or> regex_matches pattrn meta
            then record_hit app pattrn meta det else det) metaSlice det
      | None \<Rightarrow> det)"

definition analyzeMeta ::
  "(string \<Rightarrow> regexp option) \<Rightarrow> (string \<Rightarrow> string) \<Rightarrow> application
     \<Rightarrow> (string \<times> string list) list \<Rightarrow> detected \<Rightarrow> panic + detected" where
  "analyzeMeta compile ToLower app metas det =
     (case parsePatterns compile (Meta app) of
        Inl e \<Rightarrow> Inl e
      | Inr patterns \<Rightarrow>
          Inr (fold (\<lambda>(metaName, v). fold (analyzeMeta_pattern app metas (ToLower metaName)) v)
                patterns det))"

text \<open>
  \<^verbatim>\<open>scraper.EvalJS(jsProp)\<close> returns a \<^verbatim>\<open>*string\<close> and an error: here a pair of the value
  (\<^const>\<open>None\<close> for nil) and whether the error is nil. The property is evaluated once for
  its group of patterns; \<open>analyseJS_prop\<close> is the body of the loop over the groups.
\<close>

definition analyseJS_pattern ::
  "application \<Rightarrow> string \<Rightarrow> pattern \<Rightarrow> detected \<Rightarrow> detected" where
  "analyseJS_pattern app val pattrn det =
     (if str pattrn = [] \<or> regex_matches pattrn val
      then record_hit app pattrn val det else det)"

definition analyseJS_prop ::
  "application \<Rightarrow> (string \<Rightarrow> string option \<times> bool) \<Rightarrow> string \<Rightarrow> pattern list \<Rightarrow> detected
     \<Rightarrow> detected" where
  "analyseJS_prop app EvalJS jsProp v det =
     (case EvalJS jsProp of
        (Some val, True) \<Rightarrow> fold (analyseJS_pattern app val) v det
      | _ \<Rightarrow> det)"

definition analyseJS ::
  "(string \<Rightarrow> regexp option) \<Rightarrow> application \<Rightarrow> (string \<Rightarrow> string option \<times> bool) \<Rightarrow> detected
     \<Rightarrow> panic + detected" where
  "analyseJS compile app EvalJS det =
     (case parsePatterns compile (Js app) of
        Inl e \<Rightarrow> Inl e
      | Inr patterns \<Rightarrow>
          Inr (fold (\<lambda>(jsProp, v). analyseJS_prop app EvalJS jsProp v) patterns det))"

text \<open>
  The DOM matcher reads the page through goquery. \<open>Find html sel\<close> stands for
  \<^verbatim>\<open>doc.Find(sel).First()\<close> on the document parsed from \<open>html\<close>: the first element the
  selector matches, if any, with its text and its attributes. \<^verbatim>\<open>s.Attr(a)\<close> is the empty
  string for a missing attribute. \<open>analyseDom_selection\<close> is the function passed to
  \<^verbatim>\<open>Each\<close>, run on that element when there is one.
\<close>

record selection =
  Text :: string
  Attrs :: "(string \<times> string) list"

definition Attr :: "selection \<Rightarrow> string \<Rightarrow> string" where
  "Attr s a = (case map_of (Attrs s) a of Some v \<Rightarrow> v | None \<Rightarrow> [])"

definition dom_value :: "selection \<Rightarrow> string \<Rightarrow> string \<Rightarrow> string" where
  "dom_value s domType attribute =
     (if domType = ''text'' then Text s
      else if domType = ''properties'' then Attr s attribute
      else if domType = ''attributes'' then Attr s attribute
      else [])"

definition analyseDom_pattern ::
  "application \<Rightarrow> selection \<Rightarrow> string \<Rightarrow> string \<Rightarrow> pattern \<Rightarrow> detected \<Rightarrow> detected" where
  "analyseDom_pattern app s domType attribute pattrn det =
     (let val = dom_value s domType attribute in
      if str pattrn = [] \<or> regex_matches pattrn val
      then record_hit app pattrn val det else det)"

definition analyseDom_selection ::
  "(string \<Rightarrow> regexp option) \<Rightarrow> application \<Rightarrow> selection \<Rightarrow> (string \<times> json) list \<Rightarrow> detected
     \<Rightarrow> panic + detected" where
  "analyseDom_selection compile app s v1 det =
     fold_err (\<lambda>(domType, v) det.
        (case parsePatterns compile v of
           Inl e \<Rightarrow> Inl e
         | Inr patterns \<Rightarrow>
             Inr (fold (\<lambda>(attribute, pattrns).
                     fold (analyseDom_pattern app s domType attribute) pattrns)
                   patterns det)))
       v1 det"

definition analyseDom ::
  "(string \<Rightarrow> regexp option) \<Rightarrow> (string \<Rightarrow> string \<Rightarrow> selection option) \<Rightarrow> application \<Rightarrow> string
     \<Rightarrow> detected \<Rightarrow> panic + detected" where
  "analyseDom compile Find app html det =
     fold_err (\<lambda>(domSelector, v1) det.
        (case Find html domSelector of
           None \<Rightarrow> Inr det
         | Some s \<Rightarrow> analyseDom_selection compile app s v1 det))
       (Dom app) det"

definition analyseDNS_pattern ::
  "application \<Rightarrow> (string \<times> string list) list \<Rightarrow> string \<Rightarrow> pattern \<Rightarrow> detected \<Rightarrow> detected" where
  "analyseDNS_pattern app dns dnsTypeUpperCase pattrn det =
     (case map_of dns dnsTypeUpperCase of
        Some dnsSlice \<Rightarrow>
          fold (\<lambda>dns1 det.
            if str pattrn = [] \<or> regex_matches pattrn dns1
            then record_hit app pattrn dns1 det else det) dnsSlice det
      | None \<Rightarrow> det)"

definition analyseDNS ::
  "(string \<Rightarrow> regexp option) \<Rightarrow> (string \<Rightarrow> string) \<Rightarrow> application
     \<Rightarrow> (string \<times> string list) list \<Rightarrow> detected \<Rightarrow> panic + detected" where
  "analyseDNS compile ToUpper app dns det =
     (case parsePatterns compile (DNS app) of
        Inl e \<Rightarrow> Inl e
      | Inr patterns \<Rightarrow>
          Inr (fold (\<lambda>(dnsType, v). fold (analyseDNS_pattern app dns (ToUpper dnsType)) v)
                patterns det))"

section \<open>Post-processing: \<^verbatim>\<open>resolveExcludes\<close> and \<^verbatim>\<open>resolveImplies\<close>\<close>

text \<open>\<^verbatim>\<open>delete(*detected, k)\<close>\<close>

definition delete_key :: "string \<Rightarrow> (string \<times> 'a) list \<Rightarrow> (string \<times> 'a) list" where
  "delete_key k m = filter (\<lambda>(k', _). k' \<noteq> k) m"

definition resolveExcludes ::
  "(string \<Rightarrow> regexp option) \<Rightarrow> detected \<Rightarrow> json \<Rightarrow> panic + detected" where
  "resolveExcludes compile det val =
     (case parsePatterns compile val of
        Inl e \<Rightarrow> Inl e
      | Inr patterns \<Rightarrow>
          Inr (fold (\<lambda>(k, v). fold (\<lambda>excluded det. delete_key (str excluded) det) v)
                patterns det))"

text \<open>
  \<^verbatim>\<open>resolveImplies\<close> calls itself inside its loop, on the detection set it has just
  extended, and goes on with the set the call leaves behind. \<open>implies_loop\<close> is the
  loop over the patterns (the two nested \<^verbatim>\<open>range\<close> loops visit the groups one after
  another). The recursion ends because every call is made right after a technology of the
  catalog entered the detection set, and nothing leaves the set: the number of catalog
  technologies not yet detected decreases.
\<close>

definition implied_app :: "application \<Rightarrow> pattern \<Rightarrow> resultApp" where
  "implied_app app implied =
     \<lparr>resName = Name app, resVersion = version implied, resCategories = Categories app,
      Confidence = confidence implied, excludes = Excludes app, implies = Implies app\<rparr>"

function resolveImplies ::
    "(string \<Rightarrow> regexp option) \<Rightarrow> (string \<times> application) list \<Rightarrow> detected \<Rightarrow> json
       \<Rightarrow> panic + detected"
  and implies_loop ::
    "(string \<Rightarrow> regexp option) \<Rightarrow> (string \<times> application) list \<Rightarrow> detected \<Rightarrow> pattern list
       \<Rightarrow> panic + detected" where
  "resolveImplies compile apps det val =
     (case parsePatterns compile val of
        Inl e \<Rightarrow> Inl e
      | Inr patterns \<Rightarrow> implies_loop compile apps det (concat (map snd patterns)))"
| "implies_loop compile apps det [] = Inr det"
| "implies_loop compile apps det (implied # rest) =
     (case map_of apps (str implied) of
        Some app \<Rightarrow>
          if map_of det (str implied) = None then
            (let det1 = assign_at (str implied) (implied_app app implied) det in
             if Implies app \<noteq> JNull then
               (case resolveImplies compile apps det1 (Implies app) of
                  Inl e \<Rightarrow> Inl e
                | Inr det2 \<Rightarrow> implies_loop compile apps det2 rest)
             else implies_loop compile apps det1 rest)
          else implies_loop compile apps det rest
      | None \<Rightarrow> implies_loop compile apps det rest)"
  by pat_completeness auto


lemma map_fst_assign_at:
  "map fst (assign_at k x m) = (if k \<in> fst ` set m then map fst m else map fst m @ [k])"
  by (induction m) force+

lemma keys_assign_at: "fst ` set (assign_at k x m) = insert k (fst ` set m)"
proof -
  have "set (map fst (assign_at k x m)) = insert k (set (map fst m))"
    unfolding map_fst_assign_at by auto
  then show ?thesis by simp
qed

lemma implies_keys_grow_partial:
  "resolveImplies_implies_loop_dom (Inl (compile, apps, det, val)) \<Longrightarrow>
     resolveImplies compile apps det val = Inr d \<Longrightarrow> fst ` set det \<subseteq> fst ` set d"
  "resolveImplies_implies_loop_dom (Inr (compile, apps, det, ps)) \<Longrightarrow>
     implies_loop compile apps det ps = Inr d \<Longrightarrow> fst ` set det \<subseteq> fst ` set d"
proof (induction compile apps det val and compile apps det ps arbitrary: d and d
    rule: resolveImplies_implies_loop.pinduct)
  case (1 compile apps det val)
  then show ?case
    by (auto simp: resolveImplies.psimps split: sum.splits)
next
  case (2 compile apps det)
  then show ?case by (simp add: implies_loop.psimps)
next
  case (3 compile apps det implied rest)
  show ?case
  proof (cases "map_of apps (str implied)")
    case None
    with 3 show ?thesis by (simp add: implies_loop.psimps)
  next
    case (Some app)
    show ?thesis
    proof (cases "map_of det (str implied) = None")
      case False
      with 3 Some show ?thesis by (simp add: implies_loop.psimps)
    next
      case True
      define det1 where "det1 = assign_at (str implied) (implied_app app implied) det"
      have k1: "fst ` set det \<subseteq> fst ` set det1"
        by (auto simp: det1_def keys_assign_at)
      show ?thesis
      proof (cases "Implies app = JNull")
        case True
        with 3(1,7) Some \<open>map_of det (str implied) = None\<close>
        have "implies_loop compile apps det1 rest = Inr d"
          by (simp add: implies_loop.psimps det1_def)
        with "3.IH"(4) [OF Some \<open>map_of det (str implied) = None\<close> det1_def] True k1
        show ?thesis by auto
      next
        case False
        with 3(1,7) Some \<open>map_of det (str implied) = None\<close>
        obtain det2 where r: "resolveImplies compile apps det1 (Implies app) = Inr det2"
          and l: "implies_loop compile apps det2 rest = Inr d"
          by (auto simp: implies_loop.psimps det1_def split: sum.splits)
        note k1
        also from "3.IH"(2) [OF Some \<open>map_of det (str implied) = None\<close> det1_def False r]
        have "fst ` set det1 \<subseteq> fst ` set det2" .
        also from "3.IH"(3) [OF Some \<open>map_of det (str implied) = None\<close> det1_def False r l]
        have "fst ` set det2 \<subseteq> fst ` set d" .
        finally show ?thesis .
      qed
    qed
  qed
qed

definition undetected :: "(string \<times> application) list \<Rightarrow> detected \<Rightarrow> nat" where
  "undetected apps det = card (fst ` set apps - fst ` set det)"

lemma undetected_insert:
  assumes "map_of apps k = Some app" and "map_of det k = None"
  shows "undetected apps (assign_at k x det) < undetected apps det"
proof -
  from assms(1) have "k \<in> fst ` set apps" by (auto dest!: map_of_SomeD intro: rev_image_eqI)
  moreover from assms(2) have "k \<notin> fst ` set det" by (simp add: map_of_eq_None_iff)
  ultimately have "k \<in> fst ` set apps - fst ` set det" by simp
  moreover have "fst ` set apps - fst ` set (assign_at k x det) = (fst ` set apps - fst ` set det) - {k}"
    by (auto simp: keys_assign_at)
  ultimately show ?thesis
    unfolding undetected_def
    using card_Diff1_less [of "fst ` set apps - fst ` set det" k] by simp
qed

lemma undetected_mono:
  "fst ` set det \<subseteq> fst ` set det' \<Longrightarrow> undetected apps det' \<le> undetected apps det"
  unfolding undetected_def by (intro card_mono) auto

termination resolveImplies
proof (relation "inv_image (less_than <*lex*> less_than <*lex*> less_than)
    (\<lambda>x. case x of
            Inl (compile, apps, det, val) \<Rightarrow> (undetected apps det, 1::nat, 0::nat)
          | Inr (compile, apps, det, ps) \<Rightarrow> (undetected apps det, 0, length ps))", goal_cases)
  case 1
  show ?case by (intro wf_inv_image wf_lex_prod wf_less_than)
next
  case (2 compile apps det val patterns)
  show ?case by simp
next
  case (3 compile apps det implied rest)
  show ?case by simp
next
  case (4 compile apps det implied rest app det1)
  then show ?case by (simp add: undetected_insert)
next
  case (5 compile apps det implied rest app det1 det2)
  from 5(6) 5(5) have "fst ` set det1 \<subseteq> fst ` set det2"
    by (rule implies_keys_grow_partial(1))
  then have "undetected apps det2 \<le> undetected apps det1" by (rule undetected_mono)
  moreover from 5 have "undetected apps det1 < undetected apps det"
    by (simp add: undetected_insert)
  ultimately show ?case by simp
next
  case (6 compile apps det implied rest app det1)
  then show ?case by (simp add: undetected_insert)
next
  case (7 compile apps det implied rest app)
  show ?case by simp
qed


section \<open>URL validation: \<^verbatim>\<open>validateURL\<close>\<close>

text \<open>
  \<^verbatim>\<open>validateURL\<close> matches its argument against a fixed expression anchored at both ends,
  \<^verbatim>\<open>^(?:http(s)?:\/\/)?[\w.-]+(?:\.[\w\.-]+)+[\w\-\._~:/?#[\]@!\$&'\(\)\*\+,;=.]+$\<close>,
  so it decides whether the whole string belongs to the language of the expression. The
  expression is written as a term and matched by derivatives.
\<close>

datatype rx = Zero | One | Cls "char list" | Seq rx rx | Alt rx rx | Star rx

fun nullable :: "rx \<Rightarrow> bool" where
  "nullable Zero = False"
| "nullable One = True"
| "nullable (Cls cs) = False"
| "nullable (Seq r s) = (nullable r \<and> nullable s)"
| "nullable (Alt r s) = (nullable r \<or> nullable s)"
| "nullable (Star r) = True"

fun deriv :: "char \<Rightarrow> rx \<Rightarrow> rx" where
  "deriv c Zero = Zero"
| "deriv c One = Zero"
| "deriv c (Cls cs) = (if c \<in> set cs then One else Zero)"
| "deriv c (Seq r s) =
     (if nullable r then Alt (Seq (deriv c r) s) (deriv c s) else Seq (deriv c r) s)"
| "deriv c (Alt r s) = Alt (deriv c r) (deriv c s)"
| "deriv c (Star r) = Seq (deriv c r) (Star r)"

definition rx_match :: "rx \<Rightarrow> string \<Rightarrow> bool" where
  "rx_match r s = nullable (fold deriv s r)"

fun Lit :: "string \<Rightarrow> rx" where
  "Lit [] = One"
| "Lit (c # cs) = Seq (Cls [c]) (Lit cs)"

definition Plus :: "rx \<Rightarrow> rx" where
  "Plus r = Seq r (Star r)"

definition Opt :: "rx \<Rightarrow> rx" where
  "Opt r = Alt r One"

definition word_chars :: "char list" where
  "word_chars = ''0123456789ABCDEFGHIJKLMNOPQRSTUVWXYZ_abcdefghijklmnopqrstuvwxyz''"

definition url_rx :: rx where
  "url_rx =
     Seq (Opt (Seq (Lit ''http'') (Seq (Opt (Lit ''s'')) (Lit ''://''))))
       (Seq (Plus (Cls (word_chars @ ''.-'')))
         (Seq (Plus (Seq (Cls ''.'') (Plus (Cls (word_chars @ ''.-'')))))
           (Plus (Cls (word_chars @ ''-._~:/?#[]@!$&'' @ [CHR 0x27] @ ''()*+,;=.'')))))"

definition validateURL :: "string \<Rightarrow> bool" where
  "validateURL url = rx_match url_rx url"

section \<open>The scraper and \<^verbatim>\<open>Analyze\<close>\<close>

datatype error = UrlNotValid | UnknownScraper | Failure string

record ScrapedURL =
  scraped_URL :: string
  Status :: int

record ScrapedData =
  scraped_URLs :: "ScrapedURL list"
  scraped_HTML :: string
  scraped_Headers :: "(string \<times> string list) list"
  scraped_Cookies :: "(string \<times> string) list"
  scraped_Scripts :: "string list"
  scraped_Meta :: "(string \<times> string list) list"
  scraped_DNS :: "(string \<times> string list) list"
  CertIssuer :: "string list"

text \<open>
  The \<^verbatim>\<open>Scraper\<close> interface of the imported scraper package, by what its methods return.
  The fields of the records of this section that share a name with a field of
  \<^verbatim>\<open>application\<close> carry a prefix.
\<close>

record scraper =
  Init_scraper :: "error option"
  Scrape :: "string \<Rightarrow> ScrapedData \<times> error option"
  EvalJS :: "string \<Rightarrow> string option \<times> bool"
  CanRenderPage :: bool

record category =
  category_Name :: string
  Priority :: int

record Wappalyzer =
  Scraper :: "scraper option"
  Apps :: "(string \<times> application) list"
  wapp_Categories :: "(string \<times> category) list"
  JSON :: bool

text \<open>
  The result map \<^verbatim>\<open>res\<close> with its two keys, and what \<^verbatim>\<open>Analyze\<close> hands back: the
  result value, the error, and the arguments of the calls it made to \<^verbatim>\<open>Scrape\<close>.
\<close>

record report =
  urls :: "(string \<times> int) list"
  technologies :: "(string \<times> int \<times> string \<times> string list) list"

datatype result = ResNil | ResMap report | ResJSON string

record outcome =
  result :: result
  err :: "error option"
  scrape_calls :: "string list"

definition and_then :: "panic + 'a \<Rightarrow> ('a \<Rightarrow> panic + 'b) \<Rightarrow> panic + 'b" where
  "and_then r f = (case r of Inl e \<Rightarrow> Inl e | Inr x \<Rightarrow> f x)"

text \<open>
  The body of the goroutine started for one technology. The goroutines run concurrently
  and meet only in \<^verbatim>\<open>addApp\<close>, under the mutex; \<^verbatim>\<open>Analyze\<close> below runs them one after
  another in the order of the catalog list. A panic in a goroutine ends the program.
\<close>

definition analyze_app ::
  "(string \<Rightarrow> regexp option) \<Rightarrow> (string \<Rightarrow> string) \<Rightarrow> (string \<Rightarrow> string)
     \<Rightarrow> (string \<Rightarrow> string \<Rightarrow> selection option) \<Rightarrow> scraper \<Rightarrow> bool
     \<Rightarrow> ScrapedData \<Rightarrow> string \<Rightarrow> application \<Rightarrow> detected \<Rightarrow> panic + detected" where
  "analyze_app compile ToLower ToUpper Find sc canRenderPage scraped paramURL app det =
     and_then (analyzeURL compile app paramURL det) (\<lambda>det.
     and_then (if canRenderPage \<and> Js app \<noteq> JNull
               then analyseJS compile app (EvalJS sc) det else Inr det) (\<lambda>det.
     and_then (if canRenderPage \<and> Dom app \<noteq> []
               then analyseDom compile Find app (scraped_HTML scraped) det else Inr det) (\<lambda>det.
     and_then (if HTML app \<noteq> JNull
               then analyzeHTML compile app (scraped_HTML scraped) det else Inr det) (\<lambda>det.
     and_then (if length (scraped_Headers scraped) > 0 \<and> Headers app \<noteq> JNull
               then analyzeHeaders compile ToLower app (scraped_Headers scraped) det else Inr det) (\<lambda>det.
     and_then (if length (scraped_Cookies scraped) > 0 \<and> Cookies app \<noteq> JNull
               then analyzeCookies compile ToLower app (scraped_Cookies scraped) det else Inr det) (\<lambda>det.
     and_then (if length (scraped_Scripts scraped) > 0 \<and> Scripts app \<noteq> JNull
               then analyzeScripts compile app (scraped_Scripts scraped) det else Inr det) (\<lambda>det.
     and_then (if length (scraped_Meta scraped) > 0 \<and> Meta app \<noteq> JNull
               then analyzeMeta compile ToLower app (scraped_Meta scraped) det else Inr det) (\<lambda>det.
     (if length (scraped_DNS scraped) > 0 \<and> DNS app \<noteq> JNull
      then analyseDNS compile ToUpper app (scraped_DNS scraped) det else Inr det)))))))))"

text \<open>
  The post-processing loop ranges over the detection set while \<^verbatim>\<open>resolveExcludes\<close> and
  \<^verbatim>\<open>resolveImplies\<close> change it. Go does not visit an entry deleted before its turn and
  leaves open whether an entry added during the loop is visited; here the loop goes
  through the names present at its start and does not visit the added ones.
\<close>

definition post_step ::
  "(string \<Rightarrow> regexp option) \<Rightarrow> (string \<times> application) list \<Rightarrow> string \<Rightarrow> detected
     \<Rightarrow> panic + detected" where
  "post_step compile apps name det =
     (case map_of det name of
        None \<Rightarrow> Inr det
      | Some app \<Rightarrow>
          and_then (if excludes app \<noteq> JNull then resolveExcludes compile det (excludes app)
                    else Inr det) (\<lambda>det.
          (if implies app \<noteq> JNull then resolveImplies compile apps det (implies app)
           else Inr det)))"

text \<open>
  \<open>Marshal\<close> is \<^verbatim>\<open>json.Marshal\<close> on the result map. \<^verbatim>\<open>Analyze\<close> calls \<^verbatim>\<open>Scrape\<close> in its
  second statement, before anything else is looked at.
\<close>

definition Analyze ::
  "(string \<Rightarrow> regexp option) \<Rightarrow> (string \<Rightarrow> string) \<Rightarrow> (string \<Rightarrow> string)
     \<Rightarrow> (string \<Rightarrow> string \<Rightarrow> selection option) \<Rightarrow> (report \<Rightarrow> error + string)
     \<Rightarrow> Wappalyzer \<Rightarrow> string \<Rightarrow> panic + outcome" where
  "Analyze compile ToLower ToUpper Find Marshal wapp paramURL =
     (case Scraper wapp of
        None \<Rightarrow> Inl NilDereference
      | Some sc \<Rightarrow>
          (let detectedApplications = [];
               (scraped, err0) = Scrape sc paramURL;
               calls = [paramURL];
               res = \<lparr>urls = [], technologies = []\<rparr>
           in if \<not> validateURL paramURL
              then Inr \<lparr>result = ResMap res, err = Some UrlNotValid, scrape_calls = calls\<rparr>
              else
                (let canRenderPage = CanRenderPage sc in
                 and_then (fold_err (analyze_app compile ToLower ToUpper Find sc canRenderPage scraped
                               paramURL)
                             (map snd (Apps wapp)) detectedApplications) (\<lambda>det.
                 and_then (fold_err (post_step compile (Apps wapp)) (map fst det) det) (\<lambda>det.
                   (let res1 = res\<lparr>urls := map (\<lambda>u. (scraped_URL u, Status u))
                                               (scraped_URLs scraped)\<rparr>;
                        res2 = res1\<lparr>technologies :=
                                 map (\<lambda>(k, app). (resName app, Confidence app, resVersion app,
                                                   resCategories app)) det\<rparr>
                    in if JSON wapp then
                         (case Marshal res2 of
                            Inl e \<Rightarrow> Inr \<lparr>result = ResNil, err = Some e, scrape_calls = calls\<rparr>
                          | Inr j \<Rightarrow> Inr \<lparr>result = ResJSON j, err = None, scrape_calls = calls\<rparr>)
                       else Inr \<lparr>result = ResMap res2, err = None, scrape_calls = calls\<rparr>))))))"

section \<open>Engine construction: \<^verbatim>\<open>Init\<close>\<close>

record Config =
  AppsJSONPath :: string
  BrowserTimeoutSeconds :: int
  NetworkTimeoutSeconds :: int
  PageLoadTimeoutSeconds :: int
  config_JSON :: bool
  config_Scraper :: string

definition NewConfig :: Config where
  "NewConfig =
     \<lparr>AppsJSONPath = [], BrowserTimeoutSeconds = 4, NetworkTimeoutSeconds = 3,
      PageLoadTimeoutSeconds = 3, config_JSON = True, config_Scraper = ''rod''\<rparr>"

text \<open>
  \<^verbatim>\<open>temp\<close> holds the two top-level objects of the catalog document, every value still
  undecoded (\<^verbatim>\<open>*jsoniter.RawMessage\<close>, \<^const>\<open>None\<close> for a nil pointer).
\<close>

record temp =
  temp_Apps :: "(string \<times> string option) list"
  temp_Categories :: "(string \<times> string option) list"

text \<open>
  What \<^verbatim>\<open>Init\<close> reaches outside the package: the two scraper implementations, built from
  the three timeouts; \<^verbatim>\<open>os.Stat\<close> (whether it succeeds) and \<^verbatim>\<open>ioutil.ReadFile\<close>; the
  embedded catalog file; and the JSON decoder at the three types it is used at.
  \<open>Unmarshal_app raw app\<close> decodes into an \<^verbatim>\<open>application\<close> whose name is already set.
\<close>

record world =
  CollyScraper :: "int \<Rightarrow> int \<Rightarrow> int \<Rightarrow> scraper"
  RodScraper :: "int \<Rightarrow> int \<Rightarrow> int \<Rightarrow> scraper"
  Stat :: "string \<Rightarrow> bool"
  ReadFile :: "string \<Rightarrow> string \<times> error option"
  embedded_ReadFile :: "string \<Rightarrow> string \<times> error option"
  Unmarshal_temp :: "string \<Rightarrow> error + temp"
  Unmarshal_category :: "string \<Rightarrow> error + category"
  Unmarshal_app :: "string \<Rightarrow> application \<Rightarrow> error + application"

text \<open>\<^verbatim>\<open>strconv.Itoa\<close>\<close>

definition Itoa :: "int \<Rightarrow> string" where
  "Itoa i = (if i < 0 then CHR ''-'' # itoa (nat (- i)) else itoa (nat i))"

text \<open>
  \<^verbatim>\<open>parseCategories\<close> reads the name through the pointer the catalog map returns; for an
  identifier that is not in the map that pointer is nil.
\<close>

fun parseCategories ::
  "application \<Rightarrow> (string \<times> category) list \<Rightarrow> int list \<Rightarrow> panic + application" where
  "parseCategories app categoriesCatalog [] = Inr app"
| "parseCategories app categoriesCatalog (categoryID # ids) =
     (case map_of categoriesCatalog (Itoa categoryID) of
        None \<Rightarrow> Inl NilDereference
      | Some c \<Rightarrow>
          parseCategories (app\<lparr>Categories := Categories app @ [category_Name c]\<rparr>)
            categoriesCatalog ids)"

text \<open>
  The two loops of \<^verbatim>\<open>Init\<close> over the undecoded categories and technologies. Each ends with
  the first decoding error (outer \<^const>\<open>Inr\<close>, inner \<^const>\<open>Inl\<close>) or panics.
\<close>

fun load_categories ::
  "world \<Rightarrow> (string \<times> string option) list \<Rightarrow> (string \<times> category) list
     \<Rightarrow> panic + (error + (string \<times> category) list)" where
  "load_categories w [] cats = Inr (Inr cats)"
| "load_categories w ((k, v) # kvs) cats =
     (case v of
        None \<Rightarrow> Inl NilDereference
      | Some raw \<Rightarrow>
          (case Unmarshal_category w raw of
             Inl e \<Rightarrow> Inr (Inl e)
           | Inr catg \<Rightarrow> load_categories w kvs (assign_at k catg cats)))"

definition empty_application :: application where
  "empty_application =
     \<lparr>Name = [], Version = [], Categories = [], Cats = [], Cookies = JNull, Dom = [],
      Js = JNull, Headers = JNull, HTML = JNull, Excludes = JNull, Implies = JNull,
      Meta = JNull, Scripts = JNull, DNS = JNull, URL = [], Website = []\<rparr>"

fun load_apps ::
  "world \<Rightarrow> (string \<times> category) list \<Rightarrow> (string \<times> string option) list
     \<Rightarrow> (string \<times> application) list \<Rightarrow> panic + (error + (string \<times> application) list)" where
  "load_apps w cats [] apps = Inr (Inr apps)"
| "load_apps w cats ((k, v) # kvs) apps =
     (case v of
        None \<Rightarrow> Inl NilDereference
      | Some raw \<Rightarrow>
          (case Unmarshal_app w raw (empty_application\<lparr>Name := k\<rparr>) of
             Inl e \<Rightarrow> Inr (Inl e)
           | Inr app \<Rightarrow>
               (case parseCategories app cats (Cats app) of
                  Inl p \<Rightarrow> Inl p
                | Inr app' \<Rightarrow> load_apps w cats kvs (assign_at k app' apps))))"

text \<open>
  \<^verbatim>\<open>Init\<close> returns a pointer and an error. The value \<open>err1\<close> that \<^verbatim>\<open>wapp.Scraper.Init()\<close>
  returns is assigned to \<^verbatim>\<open>err\<close> and not read before \<^verbatim>\<open>err\<close> is assigned again.
\<close>

definition Init :: "world \<Rightarrow> Config \<Rightarrow> panic + (Wappalyzer option \<times> error option)" where
  "Init w config =
     (let wapp = \<lparr>Scraper = None, Apps = [], wapp_Categories = [], JSON = False\<rparr>;
          chosen =
            (if config_Scraper config = ''colly''
               then Some (CollyScraper w (BrowserTimeoutSeconds config)
                            (NetworkTimeoutSeconds config) (PageLoadTimeoutSeconds config))
             else if config_Scraper config = ''rod''
               then Some (RodScraper w (BrowserTimeoutSeconds config)
                            (NetworkTimeoutSeconds config) (PageLoadTimeoutSeconds config))
             else None)
      in case chosen of
           None \<Rightarrow> Inr (Some wapp, Some UnknownScraper)
         | Some sc \<Rightarrow>
             (let wapp = wapp\<lparr>Scraper := Some sc\<rparr>;
                  err1 = Init_scraper sc;
                  appsFile =
                    (if AppsJSONPath config \<noteq> [] \<and> Stat w (AppsJSONPath config)
                     then fst (ReadFile w (AppsJSONPath config)) else []);
                  (appsFile, err2) =
                    (if AppsJSONPath config = [] \<or> length appsFile = 0
                     then embedded_ReadFile w ''assets/technologies.json''
                     else (appsFile, None))
              in if err2 \<noteq> None then Inr (None, err2)
                 else
                   (case Unmarshal_temp w appsFile of
                      Inl e \<Rightarrow> Inr (None, Some e)
                    | Inr temporary \<Rightarrow>
                        (case load_categories w (temp_Categories temporary) [] of
                           Inl p \<Rightarrow> Inl p
                         | Inr (Inl e) \<Rightarrow> Inr (None, Some e)
                         | Inr (Inr cats) \<Rightarrow>
                             (case load_apps w cats (temp_Apps temporary) [] of
                                Inl p \<Rightarrow> Inl p
                              | Inr (Inl e) \<Rightarrow> Inr (None, Some e)
                              | Inr (Inr apps) \<Rightarrow>
                                  Inr (Some (wapp\<lparr>Apps := apps, wapp_Categories := cats,
                                                   JSON := config_JSON config\<rparr>),
                                       None))))))"

section \<open>Properties of the pattern compiler\<close>

lemma cut_single_None: "cut_at [c] s = None \<Longrightarrow> c \<notin> set s"
  by (induction s) (auto split: if_splits option.splits)

lemma cut_single_Some:
  "cut_at [c] s = Some (b, a) \<Longrightarrow>
     b = takeWhile (\<lambda>x. x \<noteq> c) s \<and> a = tl (dropWhile (\<lambda>x. x \<noteq> c) s)"
  by (induction s arbitrary: b) (auto split: if_splits option.splits)

lemma Split_single_hd: "hd (Split s [c]) = takeWhile (\<lambda>x. x \<noteq> c) s"
proof (cases "cut_at [c] s")
  case None
  then have "c \<notin> set s" by (rule cut_single_None)
  then have "takeWhile (\<lambda>x. x \<noteq> c) s = s"
    by (intro takeWhile_eq_all_conv [THEN iffD2]) auto
  moreover from None have "hd (Split s [c]) = s" by (simp add: Split.simps)
  ultimately show ?thesis by (simp only:)
next
  case (Some ba)
  then show ?thesis by (cases ba) (auto simp: Split.simps dest: cut_single_Some)
qed

lemma Split_single_no_sep: "x \<in> set (Split s [c]) \<Longrightarrow> c \<notin> set x"
proof (induction s "[c]" arbitrary: x rule: Split.induct)
  case (1 s)
  show ?case
  proof (cases "cut_at [c] s")
    case None
    with "1.prems" have "x = s" by (simp add: Split.simps)
    with None show ?thesis by (simp add: cut_single_None)
  next
    case (Some ba)
    obtain b a where ba: "ba = (b, a)" by (cases ba)
    with Some "1.prems" have "x = b \<or> x \<in> set (Split a [c])" by (simp add: Split.simps)
    then show ?thesis
    proof
      assume "x = b"
      with Some ba cut_single_Some [of c s b a] have "x = takeWhile (\<lambda>x. x \<noteq> c) s" by simp
      then show ?thesis by (auto dest: set_takeWhileD)
    next
      assume "x \<in> set (Split a [c])"
      with "1.hyps" Some ba show ?thesis by simp
    qed
  qed
qed

lemma Split_nonempty: "sep \<noteq> [] \<Longrightarrow> Split s sep \<noteq> []"
  by (subst Split.simps) (auto split: option.splits)

lemma Split_version_field: "Split (''version:'' @ v) '':'' = ''version'' # Split v '':''"
  by (subst Split.simps) simp

lemma pattern_item_version_field:
  "version (pattern_item compile p (Suc i) (''version:'' @ v)) = takeWhile (\<lambda>c. c \<noteq> CHR '':'') v"
proof -
  have ne: "Split v '':'' \<noteq> []" by (rule Split_nonempty) simp
  then have "Split v '':'' ! 0 = hd (Split v '':'')" by (simp add: hd_conv_nth)
  with ne show ?thesis
    unfolding pattern_item_def Split_version_field by (simp add: Split_single_hd)
qed

lemma pattern_item_no_colon:
  assumes "CHR '':'' \<notin> set (version p)"
  shows "CHR '':'' \<notin> set (version (pattern_item compile p i item))"
proof -
  have "1 < length (Split item '':'') \<Longrightarrow> CHR '':'' \<notin> set (Split item '':'' ! 1)"
    using Split_single_no_sep [of "Split item '':'' ! 1" item "CHR '':''"] by simp
  with assms show ?thesis
    by (auto simp: pattern_item_def Let_def split: option.splits)
qed

lemma pattern_items_no_colon:
  "CHR '':'' \<notin> set (version p) \<Longrightarrow> CHR '':'' \<notin> set (version (pattern_items compile p i slice))"
  by (induction slice arbitrary: p i) (simp_all add: pattern_item_no_colon)

lemma compile_pattern_no_colon: "CHR '':'' \<notin> set (version (compile_pattern compile s))"
  unfolding compile_pattern_def by (rule pattern_items_no_colon) simp

lemmas compile_pattern_eval =
  compile_pattern_def Split.simps Replace.simps pattern_item_def Atoi_def digit_of_def

text \<open>
  Claim C5. The claim: pattern parsing and matching never panic, whatever the shape of a
  technology's pattern fields, a list with a non-string element included. In the code a
  list of patterns is read with the type assertion \<^verbatim>\<open>v.(string)\<close>, which panics on an
  element that is not a string: at the top level, under a sub-key, and so inside every
  matcher that parses such a field (here the HTML matcher).
\<close>

theorem parsePatterns_panics_on_non_string_element:
  "parsePatterns compile (JArray [JNumber 1]) = Inl TypeAssertion
   \<and> parsePatterns compile (JObject [(''Server'', JArray [JString ''nginx'', JNumber 1])])
       = Inl TypeAssertion
   \<and> analyzeHTML compile (app\<lparr>HTML := JArray [JNumber 1]\<rparr>) html det = Inl TypeAssertion"
  by (simp add: parsePatterns_def parse_shape_def analyzeHTML_def)

text \<open>
  Claim C6. The claim: fields are split on backslash-semicolon, the example pattern
  \<^verbatim>\<open>abc\;version:\1\;confidence:50\<close> compiles to str \<^verbatim>\<open>abc\<close>, version \<^verbatim>\<open>\1\<close>, confidence
  50, and a confidence value that fails integer parsing leaves the default 100. The
  example compiles as claimed, but the code assigns what \<^verbatim>\<open>strconv.Atoi\<close> returns and
  drops its error: for \<^verbatim>\<open>abc\;confidence:high\<close> the compiled confidence is 0, for a value
  beyond the range of \<^verbatim>\<open>int\<close> it is the largest \<^verbatim>\<open>int\<close>.
\<close>

theorem confidence_parse_failure_overwrites_default:
  "compile_pattern compile
      (''abc'' @ [bsl, CHR '';''] @ ''version:'' @ [bsl] @ ''1'' @ [bsl, CHR '';'']
         @ ''confidence:50'')
     = \<lparr>str = ''abc'', regex = compile ''(?i)abc'', version = [bsl, CHR ''1''], confidence = 50\<rparr>
   \<and> confidence (compile_pattern compile (''abc'' @ [bsl, CHR '';''] @ ''confidence:high'')) = 0
   \<and> confidence (compile_pattern compile
         (''abc'' @ [bsl, CHR '';''] @ ''confidence:99999999999999999999''))
       = 9223372036854775807"
proof (intro conjI)
  show "compile_pattern compile
      (''abc'' @ [bsl, CHR '';''] @ ''version:'' @ [bsl] @ ''1'' @ [bsl, CHR '';'']
         @ ''confidence:50'')
     = \<lparr>str = ''abc'', regex = compile ''(?i)abc'', version = [bsl, CHR ''1''], confidence = 50\<rparr>"
    by (cases "compile ''(?i)abc''") (simp_all add: compile_pattern_eval)
  show "confidence (compile_pattern compile (''abc'' @ [bsl, CHR '';''] @ ''confidence:high'')) = 0"
    by (simp add: compile_pattern_eval split: option.splits)
  show "confidence (compile_pattern compile
         (''abc'' @ [bsl, CHR '';''] @ ''confidence:99999999999999999999''))
       = 9223372036854775807"
    by (simp add: compile_pattern_eval split: option.splits)
qed

text \<open>
  Claim C10. A field is split on every colon and only the segment right after the field
  name is kept: the version stored for a field \<^verbatim>\<open>version:v\<close> is \<open>v\<close> up to its first colon,
  \<^verbatim>\<open>abc\;version:\1?X:Y\<close> compiles to the version \<^verbatim>\<open>\1?X\<close>, and no compiled pattern has a
  colon in its version template, so no ternary template reaches version resolution.
\<close>

theorem version_field_truncated_at_first_colon:
  "version (pattern_item compile p (Suc i) (''version:'' @ v))
     = takeWhile (\<lambda>c. c \<noteq> CHR '':'') v
   \<and> version (compile_pattern compile
         (''abc'' @ [bsl, CHR '';''] @ ''version:'' @ [bsl] @ ''1?X:Y'')) = [bsl] @ ''1?X''
   \<and> CHR '':'' \<notin> set (version (compile_pattern compile s))"
proof (intro conjI)
  show "version (pattern_item compile p (Suc i) (''version:'' @ v))
     = takeWhile (\<lambda>c. c \<noteq> CHR '':'') v"
    by (rule pattern_item_version_field)
  show "version (compile_pattern compile
         (''abc'' @ [bsl, CHR '';''] @ ''version:'' @ [bsl] @ ''1?X:Y'')) = [bsl] @ ''1?X''"
    by (simp add: compile_pattern_eval split: option.splits)
  show "CHR '':'' \<notin> set (version (compile_pattern compile s))"
    by (rule compile_pattern_no_colon)
qed

section \<open>Properties of version resolution\<close>

lemma ternary_FindAllString_length: "length (ternary_FindAllString i template) \<le> 1"
  by (induction template) auto

lemma version_step_no_ternary:
  "version_step version0 i match = ReplaceAllString_literal (bsl # itoa i) version0 match"
  using ternary_FindAllString_length [of i version0]
  by (simp add: version_step_def Let_def)

lemmas detectVersion_eval =
  detectVersion_def version_step_def ReplaceAllString_literal_def itoa.simps ternary_here_def
  Replace.simps expand.simps

text \<open>
  Claim C3. The claim: for a pattern with a regex, \<^verbatim>\<open>detectVersion\<close> replaces a ternary token
  \<^verbatim>\<open>\i?X:Y\<close> of the template by X when group \<open>i\<close> is non-empty and by Y when it is empty, and
  replaces every \<^verbatim>\<open>\i\<close> by the literal text of group \<open>i\<close>. The code substitutes the group
  with \<^verbatim>\<open>ReplaceAllString\<close>, whose replacement argument is a template and not literal text:
  a \<^verbatim>\<open>$\<close> in the text of the group is expanded. The catalog pattern string
  \<^verbatim>\<open>x(.+)\;version:\1\<close> compiles to the version template \<^verbatim>\<open>\1\<close>; on the value \<^verbatim>\<open>x$0\<close> group 1
  is \<^verbatim>\<open>$0\<close>, which \<^verbatim>\<open>ReplaceAllString\<close> expands to the text it has just matched, \<^verbatim>\<open>\1\<close>: the
  version returned is \<^verbatim>\<open>\1\<close>, where the claim says \<^verbatim>\<open>$0\<close>. This holds for every regex engine
  that finds the match \<^verbatim>\<open>x$0\<close> with group \<^verbatim>\<open>$0\<close> in that value. In general the loop body is
  that one substitution, with the group text expanded: the ternary test asks
  \<^verbatim>\<open>FindAllString\<close> for three strings and it returns the matches of the whole expression, at
  most one, so its branch never runs (and no template with a colon leaves the pattern
  compiler).
\<close>

theorem detectVersion_expands_dollar_of_group_text:
  "(compile ''(?i)x(.+)'' = Some r \<and> FindAllStringSubmatch r ''x$0'' = [[''x$0'', ''$0'']]
      \<longrightarrow> version (compile_pattern compile
                     (''x(.+)'' @ [bsl, CHR '';''] @ ''version:'' @ [bsl] @ ''1'')) = [bsl] @ ''1''
          \<and> detectVersion
               (compile_pattern compile
                  (''x(.+)'' @ [bsl, CHR '';''] @ ''version:'' @ [bsl] @ ''1'')) ''x$0''
              = [bsl] @ ''1'')
   \<and> length (ternary_FindAllString i template) \<le> 1
   \<and> version_step template i match = ReplaceAllString_literal (bsl # itoa i) template match"
proof (intro conjI impI; (elim conjE)?)
  assume h: "compile ''(?i)x(.+)'' = Some r"
    "FindAllStringSubmatch r ''x$0'' = [[''x$0'', ''$0'']]"
  have c: "compile_pattern compile (''x(.+)'' @ [bsl, CHR '';''] @ ''version:'' @ [bsl] @ ''1'')
      = \<lparr>str = ''x(.+)'', regex = Some r, version = [bsl] @ ''1'', confidence = 100\<rparr>"
    by (simp add: compile_pattern_eval Let_def h(1))
  show "version (compile_pattern compile
                     (''x(.+)'' @ [bsl, CHR '';''] @ ''version:'' @ [bsl] @ ''1'')) = [bsl] @ ''1''"
    unfolding c by simp
  show "detectVersion
          (compile_pattern compile
             (''x(.+)'' @ [bsl, CHR '';''] @ ''version:'' @ [bsl] @ ''1'')) ''x$0''
        = [bsl] @ ''1''"
    unfolding c by (simp add: detectVersion_eval h(2) extract_name_def is_word_char_def)
next
  show "length (ternary_FindAllString i template) \<le> 1"
    by (rule ternary_FindAllString_length)
next
  show "version_step template i match = ReplaceAllString_literal (bsl # itoa i) template match"
    by (rule version_step_no_ternary)
qed

theorem detectVersion_dollar_witness:
  "detectVersion
     (compile_pattern
        (\<lambda>s. Some (Regexp (\<lambda>v. if v = ''x$0'' then [[''x$0'', ''$0'']] else [])))
        (''x(.+)'' @ [bsl, CHR '';''] @ ''version:'' @ [bsl] @ ''1'')) ''x$0'' = [bsl] @ ''1''"
  using detectVersion_expands_dollar_of_group_text
    [where compile = "\<lambda>s. Some (Regexp (\<lambda>v. if v = ''x$0'' then [[''x$0'', ''$0'']] else []))"
       and r = "Regexp (\<lambda>v. if v = ''x$0'' then [[''x$0'', ''$0'']] else [])"
       and template = "[]" and i = 0 and match = "[]"]
  by simp

section \<open>Properties of \<^verbatim>\<open>Analyze\<close> and \<^verbatim>\<open>Init\<close>\<close>

lemmas rx_eval = validateURL_def rx_match_def url_rx_def Plus_def Opt_def word_chars_def

lemma localhost_not_valid: "\<not> validateURL ''localhost''"
  by (simp add: rx_eval)

text \<open>
  Claim C4. The claim: for an input that fails URL validation, \<^verbatim>\<open>Analyze\<close> returns the
  invalid-URL error and does not scrape. \<^verbatim>\<open>Analyze\<close> does return the error
  \<^verbatim>\<open>UrlNotValid\<close>, but it calls \<^verbatim>\<open>Scrape\<close> on the input before it validates it: for the
  input \<^verbatim>\<open>localhost\<close>, which fails validation, \<^verbatim>\<open>Scrape\<close> has been called once, with that
  input, whatever the engine, its scraper and its catalog are.
\<close>

theorem Analyze_scrapes_before_validating:
  "Analyze compile ToLower ToUpper Find Marshal (wapp\<lparr>Scraper := Some sc\<rparr>) ''localhost''
     = Inr \<lparr>result = ResMap \<lparr>urls = [], technologies = []\<rparr>, err = Some UrlNotValid,
            scrape_calls = [''localhost'']\<rparr>"
  by (simp add: Analyze_def localhost_not_valid split: prod.splits)

text \<open>
  Claim C9. The claim: when the scraper's \<^verbatim>\<open>Init()\<close> returns an error, the core's \<^verbatim>\<open>Init\<close>
  returns a non-nil error instead of a usable engine. The code stores that error in
  \<^verbatim>\<open>err\<close> and never reads it: with the default configuration, a scraper whose \<^verbatim>\<open>Init()\<close>
  fails with \<open>e\<close> and a catalog that loads (here an empty one), \<^verbatim>\<open>Init\<close> returns the engine
  and a nil error.
\<close>

theorem Init_ignores_scraper_Init_error:
  "Init (w\<lparr>RodScraper := \<lambda>b n p. sc\<lparr>Init_scraper := Some e\<rparr>,
            embedded_ReadFile := \<lambda>path. (doc, None),
            Unmarshal_temp := \<lambda>bytes. Inr \<lparr>temp_Apps = [], temp_Categories = []\<rparr>\<rparr>) NewConfig
     = Inr (Some \<lparr>Scraper = Some (sc\<lparr>Init_scraper := Some e\<rparr>), Apps = [],
                  wapp_Categories = [], JSON = True\<rparr>, None)"
  by (simp add: Init_def NewConfig_def)

section \<open>Properties of the detection set\<close>

text \<open>
  A sequence of \<^verbatim>\<open>addApp\<close> calls, each with its technology record, version and confidence,
  and the first non-empty string of a list (the empty string when there is none).
\<close>

definition add_calls :: "(application \<times> string \<times> int) list \<Rightarrow> detected \<Rightarrow> detected" where
  "add_calls calls det = fold (\<lambda>(app, v, c) det. addApp app det v c) calls det"

definition first_nonempty :: "string list \<Rightarrow> string" where
  "first_nonempty vs = (case filter (\<lambda>v. v \<noteq> []) vs of [] \<Rightarrow> [] | v # _ \<Rightarrow> v)"

lemma map_of_assign_at: "map_of (assign_at k x m) = (map_of m)(k \<mapsto> x)"
  by (induction m) auto

lemma assign_at_fresh: "map_of m k = None \<Longrightarrow> assign_at k x m = m @ [(k, x)]"
  by (induction m) (auto split: if_splits)

lemma map_fst_assign_at_present:
  "map_of m k = Some y \<Longrightarrow> map fst (assign_at k x m) = map fst m"
  by (induction m) (auto split: if_splits)

lemma addApp_present:
  assumes "map_of det (Name app) = Some e"
  shows "map_of (addApp app det v c) (Name app)
           = Some (e\<lparr>resVersion := (if resVersion e = [] then v else resVersion e),
                     Confidence := max c (Confidence e)\<rparr>)"
    and "map fst (addApp app det v c) = map fst det"
  using assms
  by (auto simp: addApp_def Let_def map_of_assign_at map_fst_assign_at_present max_def)

lemma addApp_absent:
  assumes "map_of det (Name app) = None"
  shows "addApp app det v c
           = det @ [(Name app, \<lparr>resName = Name app, resVersion = v, resCategories = Categories app,
                                 Confidence = c, excludes = Excludes app, implies = Implies app\<rparr>)]"
  using assms by (simp add: addApp_def assign_at_fresh)

lemma first_nonempty_Cons:
  "first_nonempty (v # vs) = (if v = [] then first_nonempty vs else v)"
  by (simp add: first_nonempty_def)

lemma add_calls_present:
  assumes "map_of det n = Some e" and "\<forall>(app, v, c) \<in> set calls. Name app = n"
  shows "\<exists>e'. map_of (add_calls calls det) n = Some e'
           \<and> Confidence e' = fold max (map (\<lambda>(app, v, c). c) calls) (Confidence e)
           \<and> resVersion e' = first_nonempty (resVersion e # map (\<lambda>(app, v, c). v) calls)
           \<and> resName e' = resName e \<and> resCategories e' = resCategories e
           \<and> excludes e' = excludes e \<and> implies e' = implies e
           \<and> map fst (add_calls calls det) = map fst det"
  using assms
proof (induction calls arbitrary: det e)
  case Nil
  then show ?case by (simp add: add_calls_def first_nonempty_def)
next
  case (Cons call calls)
  obtain app v c where call: "call = (app, v, c)" by (cases call)
  with Cons.prems have n: "Name app = n" by simp
  define e1 where "e1 = e\<lparr>resVersion := (if resVersion e = [] then v else resVersion e),
                     Confidence := max c (Confidence e)\<rparr>"
  from Cons.prems(1) n have m1: "map_of (addApp app det v c) n = Some e1"
    and k1: "map fst (addApp app det v c) = map fst det"
    using addApp_present [of det app e v c] by (simp_all add: e1_def)
  from Cons.prems(2) have rest: "\<forall>(app, v, c) \<in> set calls. Name app = n" by auto
  from Cons.IH [OF m1 rest] obtain e' where
    e': "map_of (add_calls calls (addApp app det v c)) n = Some e'"
      "Confidence e' = fold max (map (\<lambda>(app, v, c). c) calls) (Confidence e1)"
      "resVersion e' = first_nonempty (resVersion e1 # map (\<lambda>(app, v, c). v) calls)"
      "resName e' = resName e1" "resCategories e' = resCategories e1"
      "excludes e' = excludes e1" "implies e' = implies e1"
      "map fst (add_calls calls (addApp app det v c)) = map fst (addApp app det v c)"
    by blast
  have step: "add_calls (call # calls) det = add_calls calls (addApp app det v c)"
    by (simp add: add_calls_def call)
  have v: "first_nonempty (resVersion e1 # map (\<lambda>(app, v, c). v) calls)
             = first_nonempty (resVersion e # map (\<lambda>(app, v, c). v) (call # calls))"
    by (simp add: e1_def call first_nonempty_Cons)
  have c: "fold max (map (\<lambda>(app, v, c). c) calls) (Confidence e1)
             = fold max (map (\<lambda>(app, v, c). c) (call # calls)) (Confidence e)"
    by (simp add: e1_def call)
  show ?case
    unfolding step using e' k1 v c by (simp add: e1_def)
qed

lemma count_key:
  "length (filter (\<lambda>(k, e). k = n) m) = length (filter (\<lambda>k. k = n) (map fst m))"
  by (induction m) auto

text \<open>
  Claim C1. Take any detection set without an entry for a name, and any sequence of
  \<^verbatim>\<open>addApp\<close> calls for that name, the first with \<open>app0\<close>, \<open>v0\<close>, \<open>c0\<close>. After the calls the
  set holds exactly one entry under the name; its confidence is the maximum of the
  confidences of the calls, its version is the first non-empty version of the calls, and
  its name, categories, excludes and implies are those of the first call. As the sequence
  is arbitrary, this holds after each call.
\<close>

theorem addApp_one_entry_max_confidence_first_version:
  assumes "\<forall>(app, v, c) \<in> set calls. Name app = Name app0"
    and "map_of det (Name app0) = None"
  shows "\<exists>e. map_of (add_calls ((app0, v0, c0) # calls) det) (Name app0) = Some e
            \<and> length (filter (\<lambda>(k, e). k = Name app0) (add_calls ((app0, v0, c0) # calls) det)) = 1
            \<and> Confidence e = Max (set (c0 # map (\<lambda>(app, v, c). c) calls))
            \<and> resVersion e = first_nonempty (v0 # map (\<lambda>(app, v, c). v) calls)
            \<and> resName e = Name app0 \<and> resCategories e = Categories app0
            \<and> excludes e = Excludes app0 \<and> implies e = Implies app0"
proof -
  define e0 where "e0 = \<lparr>resName = Name app0, resVersion = v0, resCategories = Categories app0,
                         Confidence = c0, excludes = Excludes app0, implies = Implies app0\<rparr>"
  define det1 where "det1 = det @ [(Name app0, e0)]"
  have first: "addApp app0 det v0 c0 = det1"
    using addApp_absent [OF assms(2)] by (simp add: det1_def e0_def)
  have step: "add_calls ((app0, v0, c0) # calls) det = add_calls calls det1"
    by (simp add: add_calls_def first)
  from assms(2) have m1: "map_of det1 (Name app0) = Some e0"
    by (simp add: det1_def map_add_Some_iff)
  from add_calls_present [OF m1 assms(1)] obtain e where
    e: "map_of (add_calls calls det1) (Name app0) = Some e"
      "Confidence e = fold max (map (\<lambda>(app, v, c). c) calls) (Confidence e0)"
      "resVersion e = first_nonempty (resVersion e0 # map (\<lambda>(app, v, c). v) calls)"
      "resName e = resName e0" "resCategories e = resCategories e0"
      "excludes e = excludes e0" "implies e = implies e0"
      "map fst (add_calls calls det1) = map fst det1"
    by blast
  from assms(2) have "Name app0 \<notin> set (map fst det)"
    by (simp add: map_of_eq_None_iff)
  then have "filter (\<lambda>k. k = Name app0) (map fst det) = []"
    by (force simp: filter_empty_conv)
  then have one: "length (filter (\<lambda>(k, e). k = Name app0) (add_calls calls det1)) = 1"
    unfolding count_key e(8) by (simp add: det1_def)
  have mx: "Confidence e = Max (set (c0 # map (\<lambda>(app, v, c). c) calls))"
    using e(2) Max.set_eq_fold [of c0 "map (\<lambda>(app, v, c). c) calls"] by (simp add: e0_def)
  show ?thesis
    unfolding step using e one mx by (simp add: e0_def)
qed


theorem addApp_sequence_witness:
  "\<exists>e. map_of (add_calls [(empty_application\<lparr>Name := ''Drupal'', Categories := [''CMS'']\<rparr>, [], 50),
                            (empty_application\<lparr>Name := ''Drupal''\<rparr>, ''8.1'', 100),
                            (empty_application\<lparr>Name := ''Drupal''\<rparr>, ''9'', 70)] []) ''Drupal'' = Some e
       \<and> length (filter (\<lambda>(k, e). k = ''Drupal'')
            (add_calls [(empty_application\<lparr>Name := ''Drupal'', Categories := [''CMS'']\<rparr>, [], 50),
                        (empty_application\<lparr>Name := ''Drupal''\<rparr>, ''8.1'', 100),
                        (empty_application\<lparr>Name := ''Drupal''\<rparr>, ''9'', 70)] [])) = 1
       \<and> Confidence e = 100 \<and> resVersion e = ''8.1'' \<and> resName e = ''Drupal''
       \<and> resCategories e = [''CMS''] \<and> excludes e = JNull \<and> implies e = JNull"
  using addApp_one_entry_max_confidence_first_version
    [of "[(empty_application\<lparr>Name := ''Drupal''\<rparr>, ''8.1'', 100),
          (empty_application\<lparr>Name := ''Drupal''\<rparr>, ''9'', 70)]"
        "empty_application\<lparr>Name := ''Drupal'', Categories := [''CMS'']\<rparr>" "[]" "[]" 50]
  by (simp add: empty_application_def first_nonempty_def)

section \<open>Properties of the post-processing\<close>

lemma fold_delete_keys:
  "fold (\<lambda>excluded det. delete_key (str excluded) det) ps det
     = filter (\<lambda>(k, e). k \<notin> str ` set ps) det"
proof (induction ps arbitrary: det)
  case Nil
  show ?case by simp
next
  case (Cons p ps)
  have "filter (\<lambda>(k, e). k \<notin> str ` set ps) (delete_key (str p) det)
          = filter (\<lambda>(k, e). k \<notin> str ` set (p # ps)) det"
    unfolding delete_key_def filter_filter by (rule filter_cong) auto
  with Cons.IH [of "delete_key (str p) det"] show ?case by simp
qed

lemma fold_delete_groups:
  "fold (\<lambda>(k, v). fold (\<lambda>excluded det. delete_key (str excluded) det) v) groups det
     = filter (\<lambda>(k, e). k \<notin> str ` set (concat (map snd groups))) det"
proof (induction groups arbitrary: det)
  case Nil
  show ?case by simp
next
  case (Cons g groups)
  obtain k v where g: "g = (k, v)" by (cases g)
  have "filter (\<lambda>(k, e). k \<notin> str ` set (concat (map snd groups)))
           (filter (\<lambda>(k, e). k \<notin> str ` set v) det)
          = filter (\<lambda>(k, e). k \<notin> str ` set (concat (map snd (g # groups)))) det"
    unfolding filter_filter g by (rule filter_cong) auto
  with Cons.IH [of "filter (\<lambda>(k, e). k \<notin> str ` set v) det"] show ?case
    by (simp add: g fold_delete_keys)
qed

text \<open>
  Claim C8. For every detection set and every excludes value, running the excludes pass on
  its own output gives that output again; and when the value parses into patterns (it
  holds no list with a non-string element), the pass keeps exactly the entries whose name
  is not the \<open>str\<close> of one of the patterns, unchanged and in their order.
\<close>

theorem resolveExcludes_removes_named_and_idempotent:
  "and_then (resolveExcludes compile det val) (\<lambda>det'. resolveExcludes compile det' val)
     = resolveExcludes compile det val
   \<and> (parsePatterns compile val = Inr patterns \<longrightarrow>
        resolveExcludes compile det val
          = Inr (filter (\<lambda>(k, e). k \<notin> str ` set (concat (map snd patterns))) det))"
  by (cases "parsePatterns compile val")
    (simp_all add: resolveExcludes_def fold_delete_groups and_then_def)

theorem resolveExcludes_witness:
  "resolveExcludes (\<lambda>s. None)
      [(''Apache'', \<lparr>resName = ''Apache'', resVersion = [], resCategories = [], Confidence = 100,
                     excludes = JString ''nginx'', implies = JNull\<rparr>),
       (''nginx'', \<lparr>resName = ''nginx'', resVersion = [], resCategories = [], Confidence = 100,
                    excludes = JNull, implies = JNull\<rparr>)]
      (JString ''nginx'')
     = Inr [(''Apache'', \<lparr>resName = ''Apache'', resVersion = [], resCategories = [],
                           Confidence = 100, excludes = JString ''nginx'', implies = JNull\<rparr>)]"
proof -
  have p: "parsePatterns (\<lambda>s. None) (JString ''nginx'')
             = Inr [(''main'', [compile_pattern (\<lambda>s. None) ''nginx''])]"
    by (simp add: parsePatterns_def parse_shape_def)
  have s: "str (compile_pattern (\<lambda>s. None) ''nginx'') = ''nginx''"
    by (simp add: compile_pattern_eval Let_def split: option.splits)
  show ?thesis
    using resolveExcludes_removes_named_and_idempotent
      [of "\<lambda>s. None" _ "JString ''nginx''" "[(''main'', [compile_pattern (\<lambda>s. None) ''nginx''])]"] p
    by (simp add: s)
qed



























section \<open>Properties of the matchers\<close>












































lemma fold_err_unchanged: "(\<And>x s. x \<in> set xs \<Longrightarrow> f x s = Inr s) \<Longrightarrow> fold_err f xs s = Inr s"
  by (induction xs arbitrary: s) auto



































end
